theory Spec2Isabelle
  imports
    Main
    "HOL-Library.Word"
    "HOL-Library.Sublist"
    "HOL-Library.Char_ord"
    "HOL-Library.List_Lexorder"
begin

unbundle bit_operations_syntax

section \<open>Strings and bytes\<close>

text \<open>
  Python \<open>str\<close> values are modelled as \<open>string\<close> (the names and digests handled by
  omnihash are ASCII), Python \<open>bytes\<close> as lists of 8-bit words. \<open>encode\<close> is
  \<open>str.encode()\<close> on ASCII text: one byte per character.
\<close>

type_synonym byte = "8 word"
type_synonym bytes = "byte list"
type_synonym u32 = "32 word"

definition encode :: "string \<Rightarrow> bytes" where
  "encode s = map of_char s"

definition digit_char :: "nat \<Rightarrow> char" where
  "digit_char n = ''0123456789'' ! n"

text \<open>\<open>str(n)\<close> and \<open>"%i" % n\<close> for a Python int: decimal digits, a minus sign when negative.\<close>

function str_nat :: "nat \<Rightarrow> string" where
  "str_nat n = (if n < 10 then [digit_char n] else str_nat (n div 10) @ [digit_char (n mod 10)])"
  by pat_completeness auto
termination
  by (relation "measure id") auto

declare str_nat.simps [simp del]

definition str_int :: "int \<Rightarrow> string" where
  "str_int i = (if i < 0 then CHR ''-'' # str_nat (nat (- i)) else str_nat (nat i))"

definition is_ascii_upper :: "char \<Rightarrow> bool" where
  "is_ascii_upper c = (65 \<le> (of_char c :: nat) \<and> (of_char c :: nat) \<le> 90)"

definition is_ascii_lower :: "char \<Rightarrow> bool" where
  "is_ascii_lower c = (97 \<le> (of_char c :: nat) \<and> (of_char c :: nat) \<le> 122)"

definition upper_char :: "char \<Rightarrow> char" where
  "upper_char c = (if is_ascii_lower c then char_of ((of_char c :: nat) - 32) else c)"

definition lower_char :: "char \<Rightarrow> char" where
  "lower_char c = (if is_ascii_upper c then char_of ((of_char c :: nat) + 32) else c)"

definition upper :: "string \<Rightarrow> string" where
  "upper s = map upper_char s"

definition lower :: "string \<Rightarrow> string" where
  "lower s = map lower_char s"

text \<open>
  \<open>str.isupper()\<close>: at least one cased character, and no cased character is lower-case.
\<close>

definition isupper :: "string \<Rightarrow> bool" where
  "isupper s = (list_ex is_ascii_upper s \<and> \<not> list_ex is_ascii_lower s)"

text \<open>The substring test \<open>f in s\<close> of Python, scanning \<open>s\<close> from the left.\<close>

fun py_in :: "'a list \<Rightarrow> 'a list \<Rightarrow> bool" where
  "py_in f [] = (f = [])"
| "py_in f (c # s) = (prefix f (c # s) \<or> py_in f s)"

section \<open>SHA-1 (the primitive behind \<open>hashlib.sha1\<close>)\<close>

text \<open>
  \<open>hashlib.sha1\<close> is the SHA-1 function of FIPS 180-4. It is written out here so that
  digests of concrete inputs can be computed: padding to a multiple of 64 bytes, big-endian
  32-bit words, and for each block 80 rounds over a sliding window of the message schedule.
\<close>

definition rotl :: "nat \<Rightarrow> u32 \<Rightarrow> u32" where
  "rotl n w = (push_bit n w) OR (drop_bit (32 - n) w)"

definition be_bytes64 :: "64 word \<Rightarrow> bytes" where
  "be_bytes64 w = map (\<lambda>i. ucast (drop_bit (8 * (7 - i)) w)) [0..<8]"

definition sha1_pad :: "bytes \<Rightarrow> bytes" where
  "sha1_pad m =
     m @ [0x80] @ replicate ((119 - length m mod 64) mod 64) 0 @ be_bytes64 (of_nat (8 * length m))"

fun be_words :: "bytes \<Rightarrow> u32 list" where
  "be_words (a # b # c # d # r) =
     (push_bit 24 (ucast a) OR push_bit 16 (ucast b) OR push_bit 8 (ucast c) OR ucast d) # be_words r"
| "be_words _ = []"

fun blocks :: "u32 list \<Rightarrow> u32 list list" where
  "blocks [] = []"
| "blocks (w # ws) = take 16 (w # ws) # blocks (drop 16 (w # ws))"

definition sha1_f :: "nat \<Rightarrow> u32 \<Rightarrow> u32 \<Rightarrow> u32 \<Rightarrow> u32" where
  "sha1_f t b c d =
     (if t < 20 then (b AND c) OR (NOT b AND d)
      else if t < 40 then b XOR c XOR d
      else if t < 60 then (b AND c) OR (b AND d) OR (c AND d)
      else b XOR c XOR d)"

definition sha1_k :: "nat \<Rightarrow> u32" where
  "sha1_k t = (if t < 20 then 0x5A827999 else if t < 40 then 0x6ED9EBA1
               else if t < 60 then 0x8F1BBCDC else 0xCA62C1D6)"

type_synonym sha1_state = "u32 \<times> u32 \<times> u32 \<times> u32 \<times> u32"

text \<open>
  One round. The window \<open>ws\<close> holds the schedule words \<open>W t, \<dots>, W (t + 15)\<close>; the word
  entering it is \<open>W (t + 16) = rotl 1 (W (t + 13) XOR W (t + 8) XOR W (t + 2) XOR W t)\<close>.
\<close>

fun sha1_round :: "nat \<times> u32 list \<times> sha1_state \<Rightarrow> nat \<times> u32 list \<times> sha1_state" where
  "sha1_round (t, ws, (a, b, c, d, e)) =
     (Suc t,
      tl ws @ [rotl 1 (ws ! 13 XOR ws ! 8 XOR ws ! 2 XOR ws ! 0)],
      (rotl 5 a + sha1_f t b c d + e + sha1_k t + hd ws, a, rotl 30 b, c, d))"

fun sha1_rounds :: "nat \<Rightarrow> nat \<times> u32 list \<times> sha1_state \<Rightarrow> nat \<times> u32 list \<times> sha1_state" where
  "sha1_rounds 0 x = x"
| "sha1_rounds (Suc n) x = sha1_rounds n (sha1_round x)"

fun sha1_add :: "sha1_state \<Rightarrow> sha1_state \<Rightarrow> sha1_state" where
  "sha1_add (h0, h1, h2, h3, h4) (a, b, c, d, e) = (h0 + a, h1 + b, h2 + c, h3 + d, h4 + e)"

definition sha1_compress :: "sha1_state \<Rightarrow> u32 list \<Rightarrow> sha1_state" where
  "sha1_compress h blk = sha1_add h (snd (snd (sha1_rounds 80 (0, blk, h))))"

definition sha1_init :: sha1_state where
  "sha1_init = (0x67452301, 0xEFCDAB89, 0x98BADCFE, 0x10325476, 0xC3D2E1F0)"

definition hex_digit :: "nat \<Rightarrow> char" where
  "hex_digit n = ''0123456789abcdef'' ! n"

definition hex32 :: "u32 \<Rightarrow> string" where
  "hex32 w = map (\<lambda>i. hex_digit (unat (drop_bit (4 * (7 - i)) w AND 15))) [0..<8]"

fun sha1_state_hex :: "sha1_state \<Rightarrow> string" where
  "sha1_state_hex (a, b, c, d, e) = hex32 a @ hex32 b @ hex32 c @ hex32 d @ hex32 e"

definition sha1_hex :: "bytes \<Rightarrow> string" where
  "sha1_hex m = sha1_state_hex (foldl sha1_compress sha1_init (blocks (be_words (sha1_pad m))))"

section \<open>Digesters\<close>

text \<open>
  Algorithms that live outside the repository are parameters of the model: what
  \<open>hashlib.new(name)\<close>, a predefined CRC of \<open>crcmod\<close> and a plugin's digester answer from
  \<open>hexdigest()\<close>, and the name tables \<open>hashlib.algorithms_available\<close> and
  \<open>crcmod._crc_definitions_table\<close>. A \<open>hashlib\<close> or \<open>crcmod\<close> object digests the
  concatenation of everything it was fed; a plugin's digester may depend on the declared size
  and on the chunks one by one.
\<close>

datatype factory =
    LenFact
  | HashlibFact string
  | PluginFact string
  | GitFact string
  | CrcFact string

record extern =
  algorithms_available :: "string list"
  crc_definitions_table :: "string list"
  hashlib_hexdigest :: "string \<Rightarrow> bytes \<Rightarrow> string"
  crcmod_hexdigest :: "string \<Rightarrow> bytes \<Rightarrow> string"
  plugin_hexdigest :: "string \<Rightarrow> int option \<Rightarrow> bytes list \<Rightarrow> string"
  plugin_algos :: "(string \<times> factory) list"

text \<open>
  A digester object with its fields: \<open>LenDigester fsize\<close>, \<open>GitSlurpDigester otype fbytes\<close>,
  the \<open>hashlib.sha1\<close> object with the bytes hashed so far, and the external objects with
  what they were fed.
\<close>

datatype digester =
    LenDigester int
  | GitSlurpDigester string bytes
  | Sha1 bytes
  | HashlibDigester string bytes
  | MyCrc string bytes
  | PluginDigester string "int option" "bytes list"

definition git_header :: "string \<Rightarrow> int \<Rightarrow> bytes" where
  "git_header otype fsize = encode (otype @ '' '' @ str_int fsize @ [CHR 0x00])"

text \<open>\<open>LenDigester.__init__\<close>: the class attribute \<open>fsize = 0\<close> stays unless a size is given.\<close>

definition LenDigester_init :: "int option \<Rightarrow> digester" where
  "LenDigester_init fsize = (case fsize of None \<Rightarrow> LenDigester 0 | Some n \<Rightarrow> LenDigester (- n))"

definition GitSlurpDigester_init :: "string \<Rightarrow> digester" where
  "GitSlurpDigester_init otype = GitSlurpDigester otype []"

fun update :: "digester \<Rightarrow> bytes \<Rightarrow> digester" where
  "update (LenDigester fsize) b =
     (if fsize \<ge> 0 then LenDigester (fsize + int (length b)) else LenDigester fsize)"
| "update (GitSlurpDigester otype fbytes) b = GitSlurpDigester otype (fbytes @ b)"
| "update (Sha1 data) b = Sha1 (data @ b)"
| "update (HashlibDigester algo data) b = HashlibDigester algo (data @ b)"
| "update (MyCrc crc_name data) b = MyCrc crc_name (data @ b)"
| "update (PluginDigester name fsize chunks) b = PluginDigester name fsize (chunks @ [b])"

text \<open>
  \<open>hexdigest()\<close> returns the digest and the object afterwards (\<open>LenDigester.hexdigest\<close>
  flips a negative \<open>fsize\<close> in place). In \<open>GitSlurpDigester.hexdigest\<close> the local
  \<open>hashlib.sha1\<close> object is created on the header and updated with \<open>fbytes\<close>; \<open>data\<close> is
  what it has hashed.
\<close>

fun hexdigest :: "extern \<Rightarrow> digester \<Rightarrow> string \<times> digester" where
  "hexdigest ext (LenDigester fsize) =
     (let fsize' = (if fsize < 0 then - fsize else fsize)
      in (str_int fsize', LenDigester fsize'))"
| "hexdigest ext (GitSlurpDigester otype fbytes) =
     (let fsize = int (length fbytes);
          data = git_header otype fsize;
          data = data @ fbytes
      in (sha1_hex data, GitSlurpDigester otype fbytes))"
| "hexdigest ext (Sha1 data) = (sha1_hex data, Sha1 data)"
| "hexdigest ext (HashlibDigester algo data) =
     (hashlib_hexdigest ext algo data, HashlibDigester algo data)"
| "hexdigest ext (MyCrc crc_name data) =
     (lower (crcmod_hexdigest ext crc_name data), MyCrc crc_name data)"
| "hexdigest ext (PluginDigester name fsize chunks) =
     (plugin_hexdigest ext name fsize chunks, PluginDigester name fsize chunks)"

text \<open>\<open>git_factory\<close> inside \<open>append_git_digesters\<close>.\<close>

definition git_factory :: "string \<Rightarrow> int option \<Rightarrow> digester" where
  "git_factory otype fsize =
     (case fsize of
        None \<Rightarrow> GitSlurpDigester_init otype
      | Some n \<Rightarrow> Sha1 (git_header otype n))"

text \<open>Calling a registered factory with the declared size, \<open>fact(fsize)\<close>.\<close>

fun call_factory :: "factory \<Rightarrow> int option \<Rightarrow> digester" where
  "call_factory LenFact fsize = LenDigester_init fsize"
| "call_factory (HashlibFact algo_name) fsize = HashlibDigester algo_name []"
| "call_factory (PluginFact name) fsize = PluginDigester name fsize []"
| "call_factory (GitFact otype) fsize = git_factory otype fsize"
| "call_factory (CrcFact crc_name) fsize = MyCrc crc_name []"

text \<open>\<open>for b in chunks: digester.update(b)\<close> on a digester alone.\<close>

definition feed :: "digester \<Rightarrow> bytes list \<Rightarrow> digester" where
  "feed d chunks = foldl update d chunks"

section \<open>The registry of digester factories\<close>

datatype error = AssertionError | ReadError

definition bind_err :: "'e + 'a \<Rightarrow> ('a \<Rightarrow> 'e + 'b) \<Rightarrow> 'e + 'b" where
  "bind_err m f = (case m of Inl e \<Rightarrow> Inl e | Inr x \<Rightarrow> f x)"

text \<open>
  Python's \<open>and\<close>, \<open>or\<close> and \<open>not\<close> work on the truth value of any object and
  \<open>and\<close>/\<open>or\<close> return one of their operands; the operands of \<open>is_algo_accepted\<close> are
  lists and booleans.
\<close>

datatype pyval = PyList "string list" | PyBool bool

fun truthy :: "pyval \<Rightarrow> bool" where
  "truthy (PyList xs) = (xs \<noteq> [])"
| "truthy (PyBool b) = b"

definition py_and :: "pyval \<Rightarrow> pyval \<Rightarrow> pyval" where
  "py_and a b = (if truthy a then b else a)"

definition py_or :: "pyval \<Rightarrow> pyval \<Rightarrow> pyval" where
  "py_or a b = (if truthy a then a else b)"

definition py_not :: "pyval \<Rightarrow> pyval" where
  "py_not a = PyBool (\<not> truthy a)"

text \<open>\<open>any(f in algo for f in fragments)\<close>.\<close>

definition any_in :: "string list \<Rightarrow> string \<Rightarrow> pyval" where
  "any_in fragments algo = PyBool (list_ex (\<lambda>f. py_in f algo) fragments)"

text \<open>
  \<open>DigesterFactories\<close> is an \<open>OrderedDict\<close> with two more attributes. The dictionary is the
  list of its items in insertion order; \<open>od_set\<close> is \<open>self[k] = v\<close>, which replaces the value
  of a key already present and keeps its place, and appends a new key.
\<close>

record digfacts =
  includes' :: "string list"
  excludes :: "string list"
  items :: "(string \<times> factory) list"

fun od_set :: "'k \<Rightarrow> 'v \<Rightarrow> ('k \<times> 'v) list \<Rightarrow> ('k \<times> 'v) list" where
  "od_set k v [] = [(k, v)]"
| "od_set k v ((k', v') # kvs) = (if k = k' then (k, v) # kvs else (k', v') # od_set k v kvs)"

definition od_contains :: "'k \<Rightarrow> ('k \<times> 'v) list \<Rightarrow> bool" where
  "od_contains k kvs = (k \<in> set (map fst kvs))"

definition setitem :: "digfacts \<Rightarrow> string \<Rightarrow> factory \<Rightarrow> digfacts" where
  "setitem d algo fact' = d\<lparr>items := od_set algo fact' (items d)\<rparr>"

definition is_algo_accepted :: "digfacts \<Rightarrow> string \<Rightarrow> error + pyval" where
  "is_algo_accepted d algo =
     (if \<not> isupper algo then Inl AssertionError
      else
        let is_included = py_or (py_not (PyList (includes' d))) (any_in (includes' d) algo);
            is_excluded = py_and (PyList (excludes d)) (any_in (excludes d) algo)
        in Inr (py_and is_included (py_not is_excluded)))"

definition register_if_accepted :: "digfacts \<Rightarrow> string \<Rightarrow> factory \<Rightarrow> error + digfacts" where
  "register_if_accepted d algo fact' =
     (if \<not> isupper algo then Inl AssertionError
      else bind_err (is_algo_accepted d algo)
             (\<lambda>acc. Inr (if truthy acc then setitem d algo fact' else d)))"

text \<open>
  \<open>digfacts.update(generator)\<close> assigns the pairs one by one while the generator runs, so
  each condition of a generator sees the assignments made before it. Each registration
  pass is therefore a loop over its sorted names.
\<close>

fun hashlib_loop :: "digfacts \<Rightarrow> string list \<Rightarrow> error + digfacts" where
  "hashlib_loop d [] = Inr d"
| "hashlib_loop d (algo # algos) =
     (if \<not> od_contains algo (items d)
      then bind_err (is_algo_accepted d (upper algo))
             (\<lambda>acc. hashlib_loop (if truthy acc then setitem d (upper algo) (HashlibFact algo) else d)
                      algos)
      else hashlib_loop d algos)"

definition append_hashlib_digesters :: "extern \<Rightarrow> digfacts \<Rightarrow> error + digfacts" where
  "append_hashlib_digesters ext d = hashlib_loop d (sort (algorithms_available ext))"

fun git_loop :: "digfacts \<Rightarrow> string list \<Rightarrow> error + digfacts" where
  "git_loop d [] = Inr d"
| "git_loop d (otype # otypes) =
     (let algo = ''GIT-'' @ upper otype
      in bind_err (is_algo_accepted d algo)
           (\<lambda>acc. git_loop
                     (if truthy acc then setitem d (''GIT-'' @ upper otype) (GitFact otype) else d)
                     otypes))"

definition append_git_digesters :: "digfacts \<Rightarrow> error + digfacts" where
  "append_git_digesters d = git_loop d [''blob'', ''commit'', ''tag'']"

fun crc_loop :: "digfacts \<Rightarrow> string list \<Rightarrow> error + digfacts" where
  "crc_loop d [] = Inr d"
| "crc_loop d (algo # algos) =
     bind_err (is_algo_accepted d algo)
       (\<lambda>acc. crc_loop (if truthy acc then setitem d algo (CrcFact algo) else d) algos)"

definition append_crc_digesters :: "extern \<Rightarrow> digfacts \<Rightarrow> error + digfacts" where
  "append_crc_digesters ext d = crc_loop d (sort (map upper (crc_definitions_table ext)))"

text \<open>
  Modelled from the spec: \<open>plugin.append_plugin_digesters\<close> (module \<open>omnihash.plugin\<close>) is
  not among the sources. The spec has externally contributed algorithms registered after
  the general-purpose digests, "each only added if still absent and accepted".
\<close>

fun append_plugin_loop :: "digfacts \<Rightarrow> (string \<times> factory) list \<Rightarrow> error + digfacts" where
  "append_plugin_loop d [] = Inr d"
| "append_plugin_loop d ((algo, fact') # rest) =
     (if od_contains algo (items d) then append_plugin_loop d rest
      else bind_err (register_if_accepted d algo fact') (\<lambda>d'. append_plugin_loop d' rest))"

definition append_plugin_digesters :: "extern \<Rightarrow> digfacts \<Rightarrow> error + digfacts" where
  "append_plugin_digesters ext d = append_plugin_loop d (plugin_algos ext)"

definition collect_digester_factories ::
  "extern \<Rightarrow> string list \<Rightarrow> string list \<Rightarrow> bool \<Rightarrow> error + digfacts" where
  "collect_digester_factories ext incl excl include_CRCs =
     (let digfacts = \<lparr>includes' = map upper incl, excludes = map upper excl, items = []\<rparr>
      in bind_err (register_if_accepted digfacts ''LENGTH'' LenFact) (\<lambda>digfacts.
         bind_err (append_hashlib_digesters ext digfacts) (\<lambda>digfacts.
         bind_err (append_plugin_digesters ext digfacts) (\<lambda>digfacts.
         bind_err (append_git_digesters digfacts) (\<lambda>digfacts.
         bind_err (if include_CRCs then append_crc_digesters ext digfacts else Inr digfacts)
           (\<lambda>digfacts.
         if list_all isupper (map fst (items digfacts)) then Inr digfacts
         else Inl AssertionError))))))"

section \<open>The byte source and \<open>itertools.tee\<close>\<close>

text \<open>
  \<open>bytechunks\<close> is an iterator: \<open>events k\<close> is what its \<open>next()\<close> answers once \<open>k\<close> chunks
  have been taken, a chunk, the end of the iteration, or a failing read. A source may yield
  chunks forever.
\<close>

datatype event = Chunk bytes | StopIteration | Failure

record source =
  events :: "nat \<Rightarrow> event"
  consumed :: nat

definition src_next :: "source \<Rightarrow> event \<times> source" where
  "src_next s =
     (case events s (consumed s) of
        Chunk b \<Rightarrow> (Chunk b, s\<lparr>consumed := Suc (consumed s)\<rparr>)
      | e \<Rightarrow> (e, s))"

text \<open>
  \<open>itertools.tee(it, n)\<close> as the Python documentation gives it: \<open>n\<close> deques share the
  iterator; a replica whose deque is empty takes the next value from the iterator and
  appends it to every deque, then pops its own deque from the left. With \<open>n = 0\<close> there is
  no replica, and nothing ever reads the iterator.
\<close>

record tee =
  it :: source
  deques :: "bytes list list"

definition tee_new :: "source \<Rightarrow> nat \<Rightarrow> tee" where
  "tee_new iterable n = \<lparr>it = iterable, deques = replicate n []\<rparr>"

definition tee_next :: "nat \<Rightarrow> tee \<Rightarrow> event \<times> tee" where
  "tee_next i t =
     (case deques t ! i of
        [] \<Rightarrow>
          (case src_next (it t) of
             (Chunk newval, it') \<Rightarrow>
                (let ds = map (\<lambda>d. d @ [newval]) (deques t)
                 in (Chunk (hd (ds ! i)), \<lparr>it = it', deques = ds[i := tl (ds ! i)]\<rparr>))
           | (e, it') \<Rightarrow> (e, t\<lparr>it := it'\<rparr>))
      | x # d \<Rightarrow> (Chunk x, t\<lparr>deques := (deques t)[i := d]\<rparr>))"

section \<open>\<open>produce_hashes\<close>\<close>

text \<open>
  The \<open>-m\<close> option is \<open>False\<close> by default and a string when given. What \<open>produce_hashes\<close>
  prints is kept as a list of lines: an \<open>echo\<close> of an algorithm with its digest, and the
  "No matches found!" message.
\<close>

datatype match_arg = MatchFalse | MatchStr string

fun match_truthy :: "match_arg \<Rightarrow> bool" where
  "match_truthy MatchFalse = False"
| "match_truthy (MatchStr m) = (m \<noteq> [])"

fun match_in :: "match_arg \<Rightarrow> string \<Rightarrow> bool" where
  "match_in MatchFalse result = False"
| "match_in (MatchStr m) result = py_in m result"

datatype line = Echo string string | NoMatches

definition echo :: "string \<Rightarrow> string \<Rightarrow> bool \<Rightarrow> line list \<Rightarrow> line list" where
  "echo algo digest json out = (if \<not> json then out @ [Echo algo digest] else out)"

text \<open>
  The inner loop \<open>for b in stream: digester.update(b)\<close> on replica \<open>i\<close>. It ends when the
  replica ends, is aborted by a failing read, and does not return (\<open>None\<close>) on a source that
  never ends.
\<close>

partial_function (option) drain :: "nat \<Rightarrow> digester \<Rightarrow> tee \<Rightarrow> (error + digester \<times> tee) option" where
  "drain i digester t =
     (case tee_next i t of
        (Chunk b, t') \<Rightarrow> drain i (update digester b) t'
      | (StopIteration, t') \<Rightarrow> Some (Inr (digester, t'))
      | (Failure, t') \<Rightarrow> Some (Inl ReadError))"

text \<open>
  The rest of the loop body, after \<open>result = digester.hexdigest()\<close>, on the local variables
  \<open>results\<close>, \<open>match_found\<close> and the printed lines.
\<close>

type_synonym report = "(string \<times> string) list \<times> bool \<times> line list"

fun record_result :: "match_arg \<Rightarrow> bool \<Rightarrow> string \<Rightarrow> string \<Rightarrow> report \<Rightarrow> report" where
  "record_result match use_json algo result (results, match_found, out) =
     (if match_truthy match then
        (if match_in match result
         then (od_set algo result results, True, echo algo result use_json out)
         else (results, match_found, out))
      else (od_set algo result results, match_found, echo algo result use_json out))"

fun hash_batch ::
  "extern \<Rightarrow> int option \<Rightarrow> match_arg \<Rightarrow> bool \<Rightarrow> (nat \<times> string \<times> factory) list \<Rightarrow>
   tee \<times> report \<Rightarrow> (error + tee \<times> report) option" where
  "hash_batch ext fsize match use_json [] st = Some (Inr st)"
| "hash_batch ext fsize match use_json ((stream, algo, fact') # batch) (t, rep) =
     (case drain stream (call_factory fact' fsize) t of
        None \<Rightarrow> None
      | Some (Inl e) \<Rightarrow> Some (Inl e)
      | Some (Inr (digester, t')) \<Rightarrow>
          (let result = fst (hexdigest ext digester)
           in hash_batch ext fsize match use_json batch
                (t', record_result match use_json algo result rep)))"

text \<open>
  \<open>produce_hashes\<close> answers the \<open>results\<close> dictionary; the printed lines and the byte
  source as it was left are returned with it.
\<close>

definition produce_hashes ::
  "extern \<Rightarrow> int option \<Rightarrow> source \<Rightarrow> digfacts \<Rightarrow> match_arg \<Rightarrow> bool \<Rightarrow>
   (error + (string \<times> string) list \<times> line list \<times> source) option" where
  "produce_hashes ext fsize bytechunks d match use_json =
     (let n = length (items d);
          streams = tee_new bytechunks n;
          batch = zip [0..<n] (items d)
      in case hash_batch ext fsize match use_json batch (streams, ([], False, [])) of
           None \<Rightarrow> None
         | Some (Inl e) \<Rightarrow> Some (Inl e)
         | Some (Inr (t, (results, match_found, out))) \<Rightarrow>
             Some (Inr (results,
                        (if match_truthy match \<and> \<not> match_found \<and> \<not> use_json
                         then out @ [NoMatches] else out),
                        it t)))"

text \<open>
  A source that yields the chunks \<open>chunks\<close> and then ends, and the digest of one algorithm
  run alone over them.
\<close>

fun emits :: "source \<Rightarrow> bytes list \<Rightarrow> bool" where
  "emits s [] = (events s (consumed s) = StopIteration)"
| "emits s (b # bs) = (events s (consumed s) = Chunk b \<and> emits (s\<lparr>consumed := Suc (consumed s)\<rparr>) bs)"

definition of_chunks :: "bytes list \<Rightarrow> source" where
  "of_chunks chunks =
     \<lparr>events = (\<lambda>k. if k < length chunks then Chunk (chunks ! k) else StopIteration),
      consumed = 0\<rparr>"

definition digest_alone :: "extern \<Rightarrow> int option \<Rightarrow> bytes list \<Rightarrow> factory \<Rightarrow> string" where
  "digest_alone ext fsize chunks fact' = fst (hexdigest ext (feed (call_factory fact' fsize) chunks))"

text \<open>
  The digests of a whole registry, each algorithm run alone; the results a match argument
  lets through; and the loop body of \<open>produce_hashes\<close> applied to a list of finished
  digests.
\<close>

definition all_digests ::
  "extern \<Rightarrow> int option \<Rightarrow> bytes list \<Rightarrow> (string \<times> factory) list \<Rightarrow> (string \<times> string) list" where
  "all_digests ext fsize chunks kvs =
     map (\<lambda>(algo, fact'). (algo, digest_alone ext fsize chunks fact')) kvs"

definition kept :: "match_arg \<Rightarrow> string \<times> string \<Rightarrow> bool" where
  "kept match = (\<lambda>(algo, result). \<not> match_truthy match \<or> match_in match result)"

definition tally :: "match_arg \<Rightarrow> bool \<Rightarrow> (string \<times> string) list \<Rightarrow> report \<Rightarrow> report" where
  "tally match use_json digs rep =
     foldl (\<lambda>rep (algo, result). record_result match use_json algo result rep) rep digs"

section \<open>A sample environment\<close>

text \<open>
  Stand-ins for the external algorithms, for evaluating the model on concrete inputs. The
  name tables hold both spellings of \<open>sha1\<close>, as \<open>hashlib.algorithms_available\<close> does on
  interpreters of the time, and one plugin claims the name \<open>GIT-BLOB\<close>.
\<close>

definition demo_extern :: extern where
  "demo_extern =
     \<lparr>algorithms_available = [''sha1'', ''md5'', ''SHA1''],
      crc_definitions_table = [''crc-32'', ''xmodem''],
      hashlib_hexdigest = (\<lambda>algo data. str_nat (length algo + length data)),
      crcmod_hexdigest = (\<lambda>crc_name data. ''0X'' @ str_nat (length data)),
      plugin_hexdigest = (\<lambda>name fsize chunks. str_nat (length chunks)),
      plugin_algos = [(''GIT-BLOB'', PluginFact ''GIT-BLOB'')]\<rparr>"


section \<open>Digesters fed chunk by chunk\<close>

lemma feed_Nil: "feed d [] = d"
  by (simp add: feed_def)

lemma feed_Cons: "feed d (b # chunks) = feed (update d b) chunks"
  by (simp add: feed_def)

lemma feed_append: "feed d (xs @ ys) = feed (feed d xs) ys"
  by (simp add: feed_def)

lemma feed_GitSlurp:
  "feed (GitSlurpDigester otype fbytes) chunks = GitSlurpDigester otype (fbytes @ concat chunks)"
  by (induction chunks arbitrary: fbytes) (simp_all add: feed_Nil feed_Cons)

lemma feed_Sha1: "feed (Sha1 data) chunks = Sha1 (data @ concat chunks)"
  by (induction chunks arbitrary: data) (simp_all add: feed_Nil feed_Cons)

lemma feed_Len_nonneg:
  "0 \<le> n \<Longrightarrow> feed (LenDigester n) chunks = LenDigester (n + int (length (concat chunks)))"
  by (induction chunks arbitrary: n) (simp_all add: feed_Nil feed_Cons)

lemma feed_Len_neg: "n < 0 \<Longrightarrow> feed (LenDigester n) chunks = LenDigester n"
  by (induction chunks) (simp_all add: feed_Nil feed_Cons)

lemma LenDigester_declared_positive:
  "0 < n \<Longrightarrow> fst (hexdigest ext (feed (LenDigester_init (Some n)) chunks)) = str_int n"
  by (simp add: LenDigester_init_def feed_Len_neg)

lemma LenDigester_undeclared:
  "fst (hexdigest ext (feed (LenDigester_init None) chunks)) = str_int (int (length (concat chunks)))"
  by (simp add: LenDigester_init_def feed_Len_nonneg Let_def)

lemma str_nat_digit: "n < 10 \<Longrightarrow> str_nat n = [digit_char n]"
  by (simp add: str_nat.simps)

section \<open>Substrings and the ordered dictionary\<close>

lemma py_in_sublist: "py_in f s = sublist f s"
  by (induction s) (simp_all add: sublist_Cons_right)

section \<open>A replica of \<open>tee\<close> drained by one digester\<close>

text \<open>
  Draining replica \<open>i\<close> feeds the digester what is buffered in its deque and then what the
  source still yields; the other deques receive the chunks fetched on the way.
\<close>

lemma tee_next_pop:
  "deques t ! i = x # xs \<Longrightarrow> tee_next i t = (Chunk x, t\<lparr>deques := (deques t)[i := xs]\<rparr>)"
  by (simp add: tee_next_def)

lemma tee_next_fetch:
  assumes "deques t ! i = []" "i < length (deques t)"
    and "events (it t) (consumed (it t)) = Chunk b"
  shows "tee_next i t =
     (Chunk b, \<lparr>it = (it t)\<lparr>consumed := Suc (consumed (it t))\<rparr>,
               deques = (map (\<lambda>q. q @ [b]) (deques t))[i := []]\<rparr>)"
  using assms by (simp add: tee_next_def src_next_def Let_def)

lemma tee_next_stop:
  assumes "deques t ! i = []" "events (it t) (consumed (it t)) = StopIteration"
  shows "tee_next i t = (StopIteration, t)"
  using assms by (simp add: tee_next_def src_next_def)

lemma tee_next_failure:
  assumes "deques t ! i = []" "events (it t) (consumed (it t)) = Failure"
  shows "tee_next i t = (Failure, t)"
  using assms by (simp add: tee_next_def src_next_def)

lemma drain_fetch:
  assumes "i < length (deques t)" "deques t ! i = []" "emits (it t) ys"
  shows "drain i d t =
     Some (Inr (feed d ys,
                \<lparr>it = (it t)\<lparr>consumed := consumed (it t) + length ys\<rparr>,
                 deques = (map (\<lambda>q. q @ ys) (deques t))[i := []]\<rparr>))"
  using assms
proof (induction ys arbitrary: d t)
  case Nil
  then have stop: "tee_next i t = (StopIteration, t)"
    by (simp add: tee_next_stop)
  have "(deques t)[i := []] = deques t"
    using Nil.prems by (simp add: list_update_same_conv)
  then show ?case
    by (subst drain.simps) (simp add: stop feed_Nil)
next
  case (Cons y ys)
  let ?t' = "\<lparr>it = (it t)\<lparr>consumed := Suc (consumed (it t))\<rparr>,
              deques = (map (\<lambda>q. q @ [y]) (deques t))[i := []]\<rparr>"
  have step: "tee_next i t = (Chunk y, ?t')"
    using Cons.prems by (simp add: tee_next_fetch)
  have "drain i (update d y) ?t' =
     Some (Inr (feed (update d y) ys,
                \<lparr>it = (it ?t')\<lparr>consumed := consumed (it ?t') + length ys\<rparr>,
                 deques = (map (\<lambda>q. q @ ys) (deques ?t'))[i := []]\<rparr>))"
    using Cons.prems by (intro Cons.IH) simp_all
  then show ?case
    by (subst drain.simps) (simp add: step feed_Cons map_update comp_def)
qed

lemma drain_buffered:
  assumes "i < length (deques t)" "deques t ! i = xs" "emits (it t) ys"
  shows "drain i d t =
     Some (Inr (feed d (xs @ ys),
                \<lparr>it = (it t)\<lparr>consumed := consumed (it t) + length ys\<rparr>,
                 deques = (map (\<lambda>q. q @ ys) (deques t))[i := []]\<rparr>))"
  using assms
proof (induction xs arbitrary: d t)
  case Nil
  then show ?case by (simp add: drain_fetch)
next
  case (Cons x xs)
  let ?t' = "t\<lparr>deques := (deques t)[i := xs]\<rparr>"
  have step: "tee_next i t = (Chunk x, ?t')"
    using Cons.prems by (simp add: tee_next_pop)
  have "drain i (update d x) ?t' =
     Some (Inr (feed (update d x) (xs @ ys),
                \<lparr>it = (it ?t')\<lparr>consumed := consumed (it ?t') + length ys\<rparr>,
                 deques = (map (\<lambda>q. q @ ys) (deques ?t'))[i := []]\<rparr>))"
    using Cons.prems by (intro Cons.IH) simp_all
  then show ?case
    by (subst drain.simps) (simp add: step feed_Cons map_update)
qed

lemma emits_exhausted: "emits s r \<Longrightarrow> emits (s\<lparr>consumed := consumed s + length r\<rparr>) []"
proof (induction r arbitrary: s)
  case Nil
  then show ?case by simp
next
  case (Cons b r)
  then have "emits (s\<lparr>consumed := Suc (consumed s)\<rparr>\<lparr>consumed := consumed (s\<lparr>consumed := Suc (consumed s)\<rparr>) + length r\<rparr>) []"
    by (intro Cons.IH) simp
  then show ?case by simp
qed

section \<open>\<open>produce_hashes\<close> on a source that ends\<close>

lemma tally_Cons:
  "tally match uj ((algo, result) # digs) rep = tally match uj digs (record_result match uj algo result rep)"
  by (simp add: tally_def)

lemma hash_batch_finite:
  assumes "emits (it t) r"
    and "\<forall>j. i \<le> j \<and> j < length (deques t) \<longrightarrow> deques t ! j = p"
    and "i + length kvs \<le> length (deques t)"
  shows "\<exists>t'. hash_batch ext fsize match uj (zip [i..<i + length kvs] kvs) (t, rep) =
                Some (Inr (t', tally match uj (all_digests ext fsize (p @ r) kvs) rep)) \<and>
              it t' = (if kvs = [] then it t
                       else (it t)\<lparr>consumed := consumed (it t) + length r\<rparr>)"
  using assms
proof (induction kvs arbitrary: i t rep p r)
  case Nil
  then show ?case by (simp add: tally_def all_digests_def)
next
  case (Cons kv kvs)
  obtain algo f where kv: "kv = (algo, f)" by (cases kv)
  let ?t1 = "\<lparr>it = (it t)\<lparr>consumed := consumed (it t) + length r\<rparr>,
              deques = (map (\<lambda>q. q @ r) (deques t))[i := []]\<rparr>"
  let ?rep1 = "record_result match uj algo (digest_alone ext fsize (p @ r) f) rep"
  have i: "i < length (deques t)" and pi: "deques t ! i = p"
    using Cons.prems by simp_all
  define batch where "batch = zip [Suc i..<Suc i + length kvs] kvs"
  have zip: "zip [i..<i + length (kv # kvs)] (kv # kvs) = (i, algo, f) # batch"
    unfolding batch_def by (simp del: upt_Suc add: upt_conv_Cons kv)
  have dr: "drain i (call_factory f fsize) t =
            Some (Inr (feed (call_factory f fsize) (p @ r), ?t1))"
    using i pi Cons.prems(1) by (rule drain_buffered)
  have "\<exists>t'. hash_batch ext fsize match uj (zip [Suc i..<Suc i + length kvs] kvs) (?t1, ?rep1) =
                Some (Inr (t', tally match uj (all_digests ext fsize ((p @ r) @ []) kvs) ?rep1)) \<and>
              it t' = (if kvs = [] then it ?t1
                       else (it ?t1)\<lparr>consumed := consumed (it ?t1) + length ([]::bytes list)\<rparr>)"
  proof (rule Cons.IH)
    show "emits (it ?t1) []"
      using emits_exhausted [OF Cons.prems(1)] by simp
    show "\<forall>j. Suc i \<le> j \<and> j < length (deques ?t1) \<longrightarrow> deques ?t1 ! j = p @ r"
      using Cons.prems(2) by simp
    show "Suc i + length kvs \<le> length (deques ?t1)"
      using Cons.prems(3) by simp
  qed
  then obtain t' where
    rest: "hash_batch ext fsize match uj batch (?t1, ?rep1) =
             Some (Inr (t', tally match uj (all_digests ext fsize (p @ r) kvs) ?rep1))"
    and it': "it t' = it ?t1"
    unfolding batch_def by auto
  have "hash_batch ext fsize match uj ((i, algo, f) # batch) (t, rep) =
        hash_batch ext fsize match uj batch (?t1, ?rep1)"
    by (simp add: dr digest_alone_def)
  moreover have "all_digests ext fsize (p @ r) (kv # kvs) =
        (algo, digest_alone ext fsize (p @ r) f) # all_digests ext fsize (p @ r) kvs"
    by (simp add: all_digests_def kv)
  ultimately have "hash_batch ext fsize match uj (zip [i..<i + length (kv # kvs)] (kv # kvs)) (t, rep) =
        Some (Inr (t', tally match uj (all_digests ext fsize (p @ r) (kv # kvs)) rep))"
    by (simp only: zip rest tally_Cons)
  then show ?case using it' by auto
qed

lemma od_set_fresh: "k \<notin> fst ` set kvs \<Longrightarrow> od_set k v kvs = kvs @ [(k, v)]"
  by (induction kvs) auto

lemma foldl_od_set_distinct:
  assumes "distinct (map fst kvs)" "fst ` set kvs \<inter> fst ` set res = {}"
  shows "foldl (\<lambda>res (k, v). od_set k v res) res kvs = res @ kvs"
  using assms
proof (induction kvs arbitrary: res)
  case Nil
  then show ?case by simp
next
  case (Cons kv kvs)
  obtain k v where kv: "kv = (k, v)" by (cases kv)
  have fresh: "od_set k v res = res @ [(k, v)]"
    using Cons.prems kv by (intro od_set_fresh) auto
  have "foldl (\<lambda>res (k, v). od_set k v res) (res @ [(k, v)]) kvs = (res @ [(k, v)]) @ kvs"
    using Cons.prems kv by (intro Cons.IH) auto
  then show ?case by (simp add: kv fresh)
qed

lemma record_result_kept:
  "record_result match uj algo result (res, mf, out) =
     (if kept match (algo, result)
      then (od_set algo result res, mf \<or> match_truthy match, echo algo result uj out)
      else (res, mf, out))"
  by (simp add: kept_def)

lemma tally_eq:
  "tally match uj digs (res, mf, out) =
     (foldl (\<lambda>res (k, v). od_set k v res) res (filter (kept match) digs),
      mf \<or> (match_truthy match \<and> filter (kept match) digs \<noteq> []),
      out @ (if uj then [] else map (\<lambda>(algo, result). Echo algo result) (filter (kept match) digs)))"
proof (induction digs arbitrary: res mf out)
  case Nil
  then show ?case by (simp add: tally_def)
next
  case (Cons dg digs)
  obtain algo result where dg: "dg = (algo, result)" by (cases dg)
  show ?case
  proof (cases "kept match (algo, result)")
    case True
    then show ?thesis
      by (auto simp del: record_result.simps simp add: dg tally_Cons record_result_kept Cons.IH echo_def)
  next
    case False
    then show ?thesis
      by (simp del: record_result.simps add: dg tally_Cons record_result_kept Cons.IH)
  qed
qed

lemma all_digests_keys: "map fst (all_digests ext fsize chunks kvs) = map fst kvs"
  by (induction kvs) (auto simp add: all_digests_def)

lemma produce_hashes_finite:
  assumes "emits src chunks" "distinct (map fst (items d))"
  shows "produce_hashes ext fsize src d match uj =
     Some (Inr (filter (kept match) (all_digests ext fsize chunks (items d)),
                (if uj then []
                 else map (\<lambda>(algo, result). Echo algo result)
                        (filter (kept match) (all_digests ext fsize chunks (items d)))) @
                (if match_truthy match \<and> \<not> uj \<and>
                    filter (kept match) (all_digests ext fsize chunks (items d)) = []
                 then [NoMatches] else []),
                (if items d = [] then src else src\<lparr>consumed := consumed src + length chunks\<rparr>)))"
proof -
  let ?kvs = "items d"
  let ?t = "tee_new src (length ?kvs)"
  let ?digs = "filter (kept match) (all_digests ext fsize chunks ?kvs)"
  have "\<exists>t'. hash_batch ext fsize match uj (zip [0..<0 + length ?kvs] ?kvs) (?t, ([], False, [])) =
                Some (Inr (t', tally match uj (all_digests ext fsize ([] @ chunks) ?kvs) ([], False, []))) \<and>
              it t' = (if ?kvs = [] then it ?t
                       else (it ?t)\<lparr>consumed := consumed (it ?t) + length chunks\<rparr>)"
    by (rule hash_batch_finite) (simp_all add: tee_new_def assms)
  then obtain t' where
    run: "hash_batch ext fsize match uj (zip [0..<length ?kvs] ?kvs) (?t, ([], False, [])) =
            Some (Inr (t', tally match uj (all_digests ext fsize chunks ?kvs) ([], False, [])))"
    and it': "it t' = (if ?kvs = [] then src else src\<lparr>consumed := consumed src + length chunks\<rparr>)"
    by (auto simp add: tee_new_def)
  have "distinct (map fst ?digs)"
    using assms(2) by (simp add: distinct_map_filter all_digests_keys)
  then have res: "foldl (\<lambda>res (k, v). od_set k v res) [] ?digs = ?digs"
    using foldl_od_set_distinct [of ?digs "[]"] by simp
  show ?thesis
    by (simp add: produce_hashes_def Let_def run tally_eq res it')
qed

section \<open>\<open>produce_hashes\<close> without a match, on any source\<close>

lemma od_set_map_fst:
  "map fst (od_set k v kvs) = (if k \<in> set (map fst kvs) then map fst kvs else map fst kvs @ [k])"
proof (induction kvs)
  case Nil
  show ?case by simp
next
  case (Cons kv kvs)
  obtain k' v' where kv: "kv = (k', v')" by (cases kv)
  show ?case
    using Cons.IH by (cases "k = k'") (simp_all add: kv)
qed

lemma od_set_keys: "fst ` set (od_set k v kvs) = insert k (fst ` set kvs)"
proof -
  have "set (map fst (od_set k v kvs)) = insert k (set (map fst kvs))"
    by (simp only: od_set_map_fst) auto
  then show ?thesis by simp
qed

lemma record_result_match_empty:
  "record_result (MatchStr []) uj algo result rep = record_result MatchFalse uj algo result rep"
  by (cases rep) simp

lemma hash_batch_match_empty:
  "hash_batch ext fsize (MatchStr []) uj batch st = hash_batch ext fsize MatchFalse uj batch st"
proof (induction batch arbitrary: st)
  case Nil
  then show ?case by simp
next
  case (Cons x batch)
  obtain i algo f where x: "x = (i, algo, f)" by (cases x)
  obtain t rep where st: "st = (t, rep)" by (cases st)
  show ?case
    by (simp add: x st Cons.IH record_result_match_empty
        split: option.split sum.split prod.split)
qed

lemma hash_batch_no_match:
  assumes "\<not> match_truthy match"
    and "hash_batch ext fsize match uj batch (t, (res, mf, out)) = Some (Inr (t', (res', mf', out')))"
  shows "fst ` set res' = fst ` set res \<union> (\<lambda>x. fst (snd x)) ` set batch \<and>
         (NoMatches \<in> set out' \<longrightarrow> NoMatches \<in> set out)"
  using assms(2)
proof (induction batch arbitrary: t res mf out)
  case Nil
  then show ?case by simp
next
  case (Cons x batch)
  obtain i algo f where x: "x = (i, algo, f)" by (cases x)
  from Cons.prems obtain dg t1 where
    dr: "drain i (call_factory f fsize) t = Some (Inr (dg, t1))"
    by (auto simp add: x split: option.splits sum.splits)
  let ?result = "fst (hexdigest ext dg)"
  have rest: "hash_batch ext fsize match uj batch
                (t1, (od_set algo ?result res, mf, echo algo ?result uj out)) =
              Some (Inr (t', (res', mf', out')))"
    using Cons.prems assms(1) by (simp add: x dr Let_def)
  have "fst ` set res' = fst ` set (od_set algo ?result res) \<union> (\<lambda>x. fst (snd x)) ` set batch \<and>
        (NoMatches \<in> set out' \<longrightarrow> NoMatches \<in> set (echo algo ?result uj out))"
    using rest by (rule Cons.IH)
  then show ?case
    by (auto simp add: x od_set_keys echo_def split: if_splits)
qed

lemma zip_upt_keys: "(\<lambda>x. fst (snd x)) ` set (zip [0..<length kvs] kvs) = fst ` set kvs"
proof -
  have "map snd (zip [0..<length kvs] kvs) = kvs"
    by (simp add: map_snd_zip)
  then have "snd ` set (zip [0..<length kvs] kvs) = set kvs"
    by (metis set_map)
  moreover have "(\<lambda>x. fst (snd x)) ` set (zip [0..<length kvs] kvs) =
      fst ` (snd ` set (zip [0..<length kvs] kvs))"
    by (simp add: image_image)
  ultimately show ?thesis
    by (simp only:)
qed

lemma all_digests_member:
  "(algo, result) \<in> set (all_digests ext fsize chunks kvs) \<longleftrightarrow>
   (\<exists>f. (algo, f) \<in> set kvs \<and> result = digest_alone ext fsize chunks f)"
  by (auto simp add: all_digests_def)

section \<open>A whole registration run in the sample environment\<close>

lemma collect_digester_factories_demo:
  "collect_digester_factories demo_extern [] [] False =
     Inr \<lparr>includes' = [], excludes = [],
          items = [(''LENGTH'', LenFact), (''SHA1'', HashlibFact ''sha1''),
                   (''MD5'', HashlibFact ''md5''), (''GIT-BLOB'', GitFact ''blob''),
                   (''GIT-COMMIT'', GitFact ''commit''), (''GIT-TAG'', GitFact ''tag'')]\<rparr>"
  by code_simp

section \<open>SHA-1 of the bytes \<open>blob 5\0hello\<close>\<close>

text \<open>
  The digest is computed in steps: the padded block as sixteen words, the eighty rounds
  twenty at a time, then the final addition and the hexadecimal text.
\<close>

lemma sha1_rounds_add: "sha1_rounds (m + n) x = sha1_rounds n (sha1_rounds m x)"
  by (induction m arbitrary: x) simp_all

lemma sha1_rounds_80:
  "sha1_rounds 80 x = sha1_rounds 20 (sha1_rounds 20 (sha1_rounds 20 (sha1_rounds 20 x)))"
proof -
  have e: "(80::nat) = 20 + (20 + (20 + 20))" by simp
  show ?thesis
    by (subst e) (simp only: sha1_rounds_add)
qed

lemma blob_hello_words:
  "be_words (sha1_pad [98, 108, 111, 98, 32, 53, 0, 104, 101, 108, 108, 111]) =
     [1651273570, 540344424, 1701604463, 2147483648, 0, 0, 0, 0, 0, 0, 0, 0, 0, 0, 0,
     96]"
  by code_simp

lemma blob_hello_blocks:
  "blocks
     [1651273570, 540344424, 1701604463, 2147483648, 0, 0, 0, 0, 0, 0, 0, 0, 0, 0, 0,
     96] =
    [[1651273570, 540344424, 1701604463, 2147483648, 0, 0, 0, 0, 0, 0, 0, 0, 0, 0, 0,
     96]]"
  by code_simp

lemma sha1_init_val: "sha1_init = (1732584193, 4023233417, 2562383102, 271733878, 3285377520)"
  by (simp add: sha1_init_def)

lemma blob_hello_rounds_20:
  "sha1_rounds 20
     (0,
      [1651273570, 540344424, 1701604463, 2147483648, 0, 0, 0, 0, 0, 0, 0, 0, 0, 0, 0,
      96],
      (1732584193, 4023233417, 2562383102, 271733878, 3285377520)) =
     (20,
      [2161377698, 2511450173, 939530346, 27788165, 929262671, 4040438134, 2531374903,
      1455866100, 3758121384, 111152852, 3247291656, 1132774713, 3929504063,
      3664183604, 1054037861, 1786776454],
      (501412411, 613940941, 723739337, 779723037, 1849251159))"
  by code_simp

lemma blob_hello_rounds_40:
  "sha1_rounds 20
     (20,
      [2161377698, 2511450173, 939530346, 27788165, 929262671, 4040438134, 2531374903,
      1455866100, 3758121384, 111152852, 3247291656, 1132774713, 3929504063,
      3664183604, 1054037861, 1786776454],
      (501412411, 613940941, 723739337, 779723037, 1849251159)) =
     (40,
      [650177704, 1766910914, 1310529146, 944525852, 2608302998, 2815955720,
      3059099384, 3679488696, 2885264372, 3754135312, 1576038941, 1136680187,
      304015088, 2609086339, 924198905, 2655328923],
      (2833451751, 754420453, 1826357884, 1176876864, 1515433721))"
  by code_simp

lemma blob_hello_rounds_60:
  "sha1_rounds 20
     (40,
      [650177704, 1766910914, 1310529146, 944525852, 2608302998, 2815955720,
      3059099384, 3679488696, 2885264372, 3754135312, 1576038941, 1136680187,
      304015088, 2609086339, 924198905, 2655328923],
      (2833451751, 754420453, 1826357884, 1176876864, 1515433721)) =
     (60,
      [2572866530, 2506627535, 3776579455, 119118242, 2757692121, 488107510,
      3398553398, 1280381399, 1116470843, 3028248514, 1445394486, 1351270107,
      430150923, 3308203467, 1576833462, 895252658],
      (588255201, 3010968780, 4143198524, 1128767522, 4030797363))"
  by code_simp

lemma blob_hello_rounds_80:
  "snd (snd (sha1_rounds 20
     (60,
      [2572866530, 2506627535, 3776579455, 119118242, 2757692121, 488107510,
      3398553398, 1280381399, 1116470843, 3028248514, 1445394486, 1351270107,
      430150923, 3308203467, 1576833462, 895252658],
      (588255201, 3010968780, 4143198524, 1128767522, 4030797363)))) =
     (1337403745, 463089110, 4236214046, 33445429, 2581774272)"
  by code_simp

lemma blob_hello_final:
  "sha1_state_hex (sha1_add (1732584193, 4023233417, 2562383102, 271733878, 3285377520)
     (1337403745, 463089110, 4236214046, 33445429, 2581774272)) =
     ''b6fc4c620b67d95f953a5c1c1230aaab5db5a1b0''"
  by code_simp

lemma sha1_blob_hello_bytes:
  "sha1_hex [98, 108, 111, 98, 32, 53, 0, 104, 101, 108, 108, 111] = ''b6fc4c620b67d95f953a5c1c1230aaab5db5a1b0''"
  by (simp only: sha1_hex_def blob_hello_words blob_hello_blocks foldl.simps sha1_compress_def
      sha1_init_val sha1_rounds_80 blob_hello_rounds_20 blob_hello_rounds_40
      blob_hello_rounds_60 blob_hello_rounds_80 blob_hello_final)

lemma blob_hello_bytes:
  "encode ''blob 5'' @ [0] @ encode ''hello'' = [98, 108, 111, 98, 32, 53, 0, 104, 101, 108, 108, 111]"
  by (simp add: encode_def)

lemma git_header_blob_5: "git_header ''blob'' 5 = encode ''blob 5'' @ [0]"
  by (simp add: git_header_def encode_def str_int_def str_nat_digit digit_char_def)

section \<open>The claims\<close>

text \<open>
  Claim C1 (fan-out correctness). On a source that yields the chunks \<open>chunks\<close> and ends,
  and a registry of any size (two or more algorithms included), \<open>produce_hashes\<close> returns
  for every algorithm the digest of that algorithm run alone: its accumulator built by
  \<open>factory(fsize)\<close> and fed the same chunks in order. With a match argument the mapping
  holds those of these digests that the match lets through; without one it holds them all,
  in registration order. The replicas of \<open>tee\<close> neither lose nor reorder a chunk.
\<close>

theorem fan_out_correctness:
  assumes "emits src chunks" and "distinct (map fst (items d))"
  shows "(\<exists>out src'. produce_hashes ext fsize src d match use_json =
            Some (Inr (filter (kept match) (all_digests ext fsize chunks (items d)), out, src'))) \<and>
         (\<exists>out src'. produce_hashes ext fsize src d MatchFalse use_json =
            Some (Inr (all_digests ext fsize chunks (items d), out, src')))"
proof -
  have "filter (kept MatchFalse) (all_digests ext fsize chunks (items d)) =
        all_digests ext fsize chunks (items d)"
    by (simp add: kept_def)
  then show ?thesis
    using assms by (simp add: produce_hashes_finite)
qed

theorem fan_out_correctness_witness:
  "emits (of_chunks [encode ''he'', encode ''llo'']) [encode ''he'', encode ''llo''] \<and>
   distinct (map fst (items \<lparr>includes' = [], excludes = [],
                            items = [(''LENGTH'', LenFact), (''GIT-BLOB'', GitFact ''blob'')]\<rparr>)) \<and>
   (\<exists>out src'.
      produce_hashes demo_extern None (of_chunks [encode ''he'', encode ''llo''])
        \<lparr>includes' = [], excludes = [],
         items = [(''LENGTH'', LenFact), (''GIT-BLOB'', GitFact ''blob'')]\<rparr> MatchFalse False =
      Some (Inr ([(''LENGTH'', ''5''),
                  (''GIT-BLOB'', ''b6fc4c620b67d95f953a5c1c1230aaab5db5a1b0'')], out, src')))"
proof -
  let ?chunks = "[encode ''he'', encode ''llo'']"
  let ?d = "\<lparr>includes' = [], excludes = [],
             items = [(''LENGTH'', LenFact), (''GIT-BLOB'', GitFact ''blob'')]\<rparr>"
  have h1: "emits (of_chunks ?chunks) ?chunks"
    by (simp add: of_chunks_def)
  have h2: "distinct (map fst (items ?d))"
    by simp
  have len: "digest_alone demo_extern None ?chunks LenFact = ''5''"
    by (simp add: digest_alone_def LenDigester_undeclared encode_def str_int_def str_nat_digit
        digit_char_def)
  have "git_header ''blob'' 5 @ concat ?chunks =
        [98, 108, 111, 98, 32, 53, 0, 104, 101, 108, 108, 111]"
    by (simp add: git_header_blob_5 encode_def)
  then have git: "digest_alone demo_extern None ?chunks (GitFact ''blob'') =
        ''b6fc4c620b67d95f953a5c1c1230aaab5db5a1b0''"
    by (simp add: digest_alone_def git_factory_def GitSlurpDigester_init_def feed_GitSlurp
        encode_def sha1_blob_hello_bytes)
  have digs: "all_digests demo_extern None ?chunks (items ?d) =
        [(''LENGTH'', ''5''), (''GIT-BLOB'', ''b6fc4c620b67d95f953a5c1c1230aaab5db5a1b0'')]"
    by (simp add: all_digests_def len git)
  show ?thesis
    using h1 h2 fan_out_correctness [OF h1 h2, of demo_extern None MatchFalse False]
    by (simp only: digs)
qed

text \<open>
  Claim C2 (acceptance criteria). For an upper-case name \<open>n\<close>, \<open>is_algo_accepted\<close> answers
  the boolean "the includes are empty or \<open>n\<close> contains one of them, and not (the excludes
  are non-empty and \<open>n\<close> contains one of them)", where containing is having the fragment as a
  contiguous sublist. The answer is a function of the two fragment lists and the name only:
  the method reads the registry and leaves it as it was.
\<close>

theorem is_algo_accepted_criteria:
  assumes "isupper n"
  shows "is_algo_accepted d n =
     Inr (PyBool ((includes' d = [] \<or> (\<exists>f \<in> set (includes' d). sublist f n)) \<and>
                  \<not> (excludes d \<noteq> [] \<and> (\<exists>f \<in> set (excludes d). sublist f n))))"
  using assms
  by (auto simp add: is_algo_accepted_def py_or_def py_and_def py_not_def any_in_def
      list_ex_iff py_in_sublist Let_def)

theorem is_algo_accepted_criteria_witness:
  "isupper ''SHA256'' \<and>
   is_algo_accepted \<lparr>includes' = [''SHA''], excludes = [''MD'', ''512''], items = []\<rparr> ''SHA256'' =
     Inr (PyBool True)"
proof -
  have h: "isupper ''SHA256''"
    by (simp add: isupper_def is_ascii_upper_def is_ascii_lower_def)
  show ?thesis
    using h is_algo_accepted_criteria [OF h,
        of "\<lparr>includes' = [''SHA''], excludes = [''MD'', ''512''], items = []\<rparr>"]
    by (simp add: py_in_sublist [symmetric])
qed

text \<open>
  Claim C3 (length pseudo-algorithm), at the input where the code departs from it: a
  \<open>LenDigester\<close> built with the declared length 0 is the same object as one built with no
  length, because \<open>-0 = 0\<close> leaves the sign flag unset. Fed one byte it answers \<open>"1"\<close>, where
  the claim has \<open>str(0) = "0"\<close>. (For a declared length above 0 and for no declared length the
  digester does what the claim says: lemmas \<open>LenDigester_declared_positive\<close> and
  \<open>LenDigester_undeclared\<close>.)
\<close>

theorem LenDigester_declared_zero_conflated:
  "LenDigester_init (Some 0) = LenDigester_init None \<and>
   fst (hexdigest demo_extern (feed (LenDigester_init (Some 0)) [encode ''a''])) = ''1'' \<and>
   str_int 0 = ''0''"
  by (simp add: LenDigester_init_def feed_def encode_def str_int_def str_nat_digit digit_char_def)

text \<open>
  Claim C4 (registration never overwrites), at inputs where the code departs from it.
  \<open>register_if_accepted\<close> assigns an accepted name whether or not it is present; the git
  and CRC passes have no test for presence; the hashlib pass has one, but it looks up the
  lower-case spelling among upper-case keys, so \<open>sha1\<close> replaces the factory registered
  for \<open>SHA1\<close>: with both spellings among the available algorithms the pass leaves
  \<open>SHA1\<close> with the factory of the spelling sorted last.
\<close>

theorem registration_overwrites_present_name:
  "register_if_accepted
     \<lparr>includes' = [], excludes = [], items = [(''LENGTH'', LenFact)]\<rparr>
     ''LENGTH'' (PluginFact ''LENGTH'') =
     Inr \<lparr>includes' = [], excludes = [], items = [(''LENGTH'', PluginFact ''LENGTH'')]\<rparr> \<and>
   append_git_digesters
     \<lparr>includes' = [], excludes = [], items = [(''GIT-BLOB'', PluginFact ''GIT-BLOB'')]\<rparr> =
     Inr \<lparr>includes' = [], excludes = [],
          items = [(''GIT-BLOB'', GitFact ''blob''), (''GIT-COMMIT'', GitFact ''commit''),
                   (''GIT-TAG'', GitFact ''tag'')]\<rparr> \<and>
   append_crc_digesters demo_extern
     \<lparr>includes' = [], excludes = [], items = [(''XMODEM'', PluginFact ''XMODEM'')]\<rparr> =
     Inr \<lparr>includes' = [], excludes = [],
          items = [(''XMODEM'', CrcFact ''XMODEM''), (''CRC-32'', CrcFact ''CRC-32'')]\<rparr> \<and>
   hashlib_loop
     \<lparr>includes' = [], excludes = [], items = [(''SHA1'', HashlibFact ''SHA1'')]\<rparr> [''sha1''] =
     Inr \<lparr>includes' = [], excludes = [], items = [(''SHA1'', HashlibFact ''sha1'')]\<rparr> \<and>
   append_hashlib_digesters demo_extern
     \<lparr>includes' = [], excludes = [], items = [(''LENGTH'', LenFact)]\<rparr> =
     Inr \<lparr>includes' = [], excludes = [],
          items = [(''LENGTH'', LenFact), (''SHA1'', HashlibFact ''sha1''),
                   (''MD5'', HashlibFact ''md5'')]\<rparr>"
proof (intro conjI)
  show "register_if_accepted
     \<lparr>includes' = [], excludes = [], items = [(''LENGTH'', LenFact)]\<rparr>
     ''LENGTH'' (PluginFact ''LENGTH'') =
     Inr \<lparr>includes' = [], excludes = [], items = [(''LENGTH'', PluginFact ''LENGTH'')]\<rparr>"
    by code_simp
  show "append_git_digesters
     \<lparr>includes' = [], excludes = [], items = [(''GIT-BLOB'', PluginFact ''GIT-BLOB'')]\<rparr> =
     Inr \<lparr>includes' = [], excludes = [],
          items = [(''GIT-BLOB'', GitFact ''blob''), (''GIT-COMMIT'', GitFact ''commit''),
                   (''GIT-TAG'', GitFact ''tag'')]\<rparr>"
    by code_simp
  show "append_crc_digesters demo_extern
     \<lparr>includes' = [], excludes = [], items = [(''XMODEM'', PluginFact ''XMODEM'')]\<rparr> =
     Inr \<lparr>includes' = [], excludes = [],
          items = [(''XMODEM'', CrcFact ''XMODEM''), (''CRC-32'', CrcFact ''CRC-32'')]\<rparr>"
    by code_simp
  show "hashlib_loop
     \<lparr>includes' = [], excludes = [], items = [(''SHA1'', HashlibFact ''SHA1'')]\<rparr> [''sha1''] =
     Inr \<lparr>includes' = [], excludes = [], items = [(''SHA1'', HashlibFact ''sha1'')]\<rparr>"
    by code_simp
  show "append_hashlib_digesters demo_extern
     \<lparr>includes' = [], excludes = [], items = [(''LENGTH'', LenFact)]\<rparr> =
     Inr \<lparr>includes' = [], excludes = [],
          items = [(''LENGTH'', LenFact), (''SHA1'', HashlibFact ''sha1''),
                   (''MD5'', HashlibFact ''md5'')]\<rparr>"
    by code_simp
qed

text \<open>
  Claim C5 (slurping equivalence). For any object type (\<open>blob\<close>, \<open>commit\<close> and \<open>tag\<close>
  among them) and chunks whose byte count is the declared length, the digester that
  \<open>git_factory\<close> builds without a length (\<open>GitSlurpDigester\<close>) and the one it builds with
  the length (SHA-1 started on the header) answer the same digest.
\<close>

theorem git_slurp_equals_known_length:
  assumes "fsize = int (length (concat chunks))"
  shows "fst (hexdigest ext (feed (git_factory otype None) chunks)) =
         fst (hexdigest ext (feed (git_factory otype (Some fsize)) chunks))"
  using assms by (simp add: git_factory_def GitSlurpDigester_init_def feed_GitSlurp feed_Sha1)

theorem git_slurp_equals_known_length_witness:
  "(5::int) = int (length (concat [encode ''he'', encode ''llo''])) \<and>
   fst (hexdigest demo_extern (feed (git_factory ''blob'' None) [encode ''he'', encode ''llo''])) =
   fst (hexdigest demo_extern (feed (git_factory ''blob'' (Some 5)) [encode ''he'', encode ''llo'']))"
proof -
  have h: "(5::int) = int (length (concat [encode ''he'', encode ''llo'']))"
    by (simp add: encode_def)
  show ?thesis
    using h git_slurp_equals_known_length [OF h, of demo_extern "''blob''"] by blast
qed

text \<open>
  Claim C6 (test vector). The known-length digester for type \<open>blob\<close> and declared length
  5, fed \<open>hello\<close>, answers the SHA-1 of the header followed by the content; the header is
  \<open>blob 5\<close> and one NUL byte; and that SHA-1 is
  \<open>b6fc4c620b67d95f953a5c1c1230aaab5db5a1b0\<close>.
\<close>

theorem git_blob_hello_digest:
  "fst (hexdigest ext (feed (git_factory ''blob'' (Some 5)) [encode ''hello''])) =
     sha1_hex (encode ''blob 5'' @ [0] @ encode ''hello'') \<and>
   git_header ''blob'' 5 = encode ''blob 5'' @ [0] \<and>
   sha1_hex (encode ''blob 5'' @ [0] @ encode ''hello'') =
     ''b6fc4c620b67d95f953a5c1c1230aaab5db5a1b0''"
proof (intro conjI)
  show "fst (hexdigest ext (feed (git_factory ''blob'' (Some 5)) [encode ''hello''])) =
     sha1_hex (encode ''blob 5'' @ [0] @ encode ''hello'')"
    by (simp add: git_factory_def feed_Sha1 git_header_blob_5)
  show "git_header ''blob'' 5 = encode ''blob 5'' @ [0]"
    by (rule git_header_blob_5)
  show "sha1_hex (encode ''blob 5'' @ [0] @ encode ''hello'') =
     ''b6fc4c620b67d95f953a5c1c1230aaab5db5a1b0''"
    by (simp only: blob_hello_bytes sha1_blob_hello_bytes)
qed

text \<open>
  Claim C7 as the spec states it fails: the "No matches found!" message is not printed when
  \<open>use_json\<close> is set, although no digest contains the match (the only digest is \<open>"5"\<close>,
  the match is \<open>zzz\<close>, and nothing is printed); and it is not printed for the empty match
  string on an empty registry, where no algorithm's digest contains it either (last
  conjunct).
\<close>

theorem no_match_signal_counterexample:
  "produce_hashes demo_extern (Some 5) (of_chunks [encode ''hello''])
     \<lparr>includes' = [], excludes = [], items = [(''LENGTH'', LenFact)]\<rparr> (MatchStr ''zzz'') True =
     Some (Inr ([], [], (of_chunks [encode ''hello''])\<lparr>consumed := 1\<rparr>)) \<and>
   digest_alone demo_extern (Some 5) [encode ''hello''] LenFact = ''5'' \<and>
   \<not> py_in ''zzz'' ''5'' \<and>
   produce_hashes demo_extern (Some 5) (of_chunks [encode ''hello''])
     \<lparr>includes' = [], excludes = [], items = []\<rparr> (MatchStr []) False =
     Some (Inr ([], [], of_chunks [encode ''hello'']))"
proof (intro conjI)
  let ?chunks = "[encode ''hello'']"
  let ?d = "\<lparr>includes' = [], excludes = [], items = [(''LENGTH'', LenFact)]\<rparr>"
  have h1: "emits (of_chunks ?chunks) ?chunks"
    by (simp add: of_chunks_def)
  have h2: "distinct (map fst (items ?d))"
    by simp
  have len: "digest_alone demo_extern (Some 5) ?chunks LenFact = ''5''"
    by (simp add: digest_alone_def LenDigester_declared_positive str_int_def str_nat_digit
        digit_char_def)
  show "digest_alone demo_extern (Some 5) ?chunks LenFact = ''5''"
    by (rule len)
  show "\<not> py_in ''zzz'' ''5''"
    by simp
  have none: "filter (kept (MatchStr ''zzz''))
        (all_digests demo_extern (Some 5) ?chunks [(''LENGTH'', LenFact)]) = []"
    by (simp add: all_digests_def kept_def len)
  show "produce_hashes demo_extern (Some 5) (of_chunks ?chunks) ?d (MatchStr ''zzz'') True =
     Some (Inr ([], [], (of_chunks ?chunks)\<lparr>consumed := 1\<rparr>))"
    by (simp add: produce_hashes_finite [OF h1 h2] none) (simp add: of_chunks_def)
  show "produce_hashes demo_extern (Some 5) (of_chunks [encode ''hello''])
     \<lparr>includes' = [], excludes = [], items = []\<rparr> (MatchStr []) False =
     Some (Inr ([], [], of_chunks [encode ''hello'']))"
    by (simp add: produce_hashes_def tee_new_def)
qed

text \<open>
  Claim C7, amended (match filtering). On a source that yields \<open>chunks\<close> and ends, the
  mapping returned by \<open>produce_hashes\<close> holds exactly the algorithms of the registry with
  their digests, restricted, when the match argument is a non-empty string, to the digests
  that contain it. The "No matches found!" message is printed if and only if the match is a
  non-empty string, \<open>use_json\<close> is off, and no digest contains the match. With no match
  argument, or an empty one, every algorithm is included and the message is not printed.
\<close>

theorem match_filtering:
  assumes "emits src chunks" and "distinct (map fst (items d))"
  shows "\<exists>results out src'.
     produce_hashes ext fsize src d match use_json = Some (Inr (results, out, src')) \<and>
     (\<forall>algo result.
        (algo, result) \<in> set results \<longleftrightarrow>
        (\<exists>f. (algo, f) \<in> set (items d) \<and> result = digest_alone ext fsize chunks f \<and>
             (match_truthy match \<longrightarrow> match_in match result))) \<and>
     (NoMatches \<in> set out \<longleftrightarrow>
        match_truthy match \<and> \<not> use_json \<and>
        (\<forall>(algo, f) \<in> set (items d). \<not> match_in match (digest_alone ext fsize chunks f)))"
proof -
  let ?all = "all_digests ext fsize chunks (items d)"
  let ?results = "filter (kept match) ?all"
  let ?out = "(if use_json then []
               else map (\<lambda>(algo, result). Echo algo result) ?results) @
              (if match_truthy match \<and> \<not> use_json \<and> ?results = [] then [NoMatches] else [])"
  have run: "produce_hashes ext fsize src d match use_json =
     Some (Inr (?results, ?out,
                (if items d = [] then src else src\<lparr>consumed := consumed src + length chunks\<rparr>)))"
    using assms by (rule produce_hashes_finite)
  have members: "\<forall>algo result.
        (algo, result) \<in> set ?results \<longleftrightarrow>
        (\<exists>f. (algo, f) \<in> set (items d) \<and> result = digest_alone ext fsize chunks f \<and>
             (match_truthy match \<longrightarrow> match_in match result))"
    by (auto simp add: all_digests_member kept_def)
  have empty: "?results = [] \<longleftrightarrow>
        (\<forall>(algo, f) \<in> set (items d).
           \<not> (match_truthy match \<longrightarrow> match_in match (digest_alone ext fsize chunks f)))"
    by (auto simp add: filter_empty_conv all_digests_def kept_def)
  have echo_only: "NoMatches \<notin> set (map (\<lambda>(algo, result). Echo algo result) ?results)"
    by auto
  have signal: "NoMatches \<in> set ?out \<longleftrightarrow>
        match_truthy match \<and> \<not> use_json \<and>
        (\<forall>(algo, f) \<in> set (items d). \<not> match_in match (digest_alone ext fsize chunks f))"
    using echo_only empty by auto
  show ?thesis
    using run members signal by blast
qed

theorem match_filtering_witness:
  "emits (of_chunks [encode ''hello'']) [encode ''hello''] \<and>
   distinct (map fst (items \<lparr>includes' = [], excludes = [],
                            items = [(''LENGTH'', LenFact), (''GIT-BLOB'', GitFact ''blob'')]\<rparr>)) \<and>
   (\<exists>results out src'.
      produce_hashes demo_extern (Some 5) (of_chunks [encode ''hello''])
        \<lparr>includes' = [], excludes = [],
         items = [(''LENGTH'', LenFact), (''GIT-BLOB'', GitFact ''blob'')]\<rparr>
        (MatchStr ''b6fc'') False = Some (Inr (results, out, src')) \<and>
      (\<forall>algo result.
         (algo, result) \<in> set results \<longleftrightarrow>
         (\<exists>f. (algo, f) \<in> set (items \<lparr>includes' = [], excludes = [],
                    items = [(''LENGTH'', LenFact), (''GIT-BLOB'', GitFact ''blob'')]\<rparr>) \<and>
              result = digest_alone demo_extern (Some 5) [encode ''hello''] f \<and>
              (match_truthy (MatchStr ''b6fc'') \<longrightarrow> match_in (MatchStr ''b6fc'') result))) \<and>
      (NoMatches \<in> set out \<longleftrightarrow>
         match_truthy (MatchStr ''b6fc'') \<and> \<not> False \<and>
         (\<forall>(algo, f) \<in> set (items \<lparr>includes' = [], excludes = [],
                    items = [(''LENGTH'', LenFact), (''GIT-BLOB'', GitFact ''blob'')]\<rparr>).
            \<not> match_in (MatchStr ''b6fc'') (digest_alone demo_extern (Some 5) [encode ''hello''] f))))"
proof -
  let ?chunks = "[encode ''hello'']"
  let ?d = "\<lparr>includes' = [], excludes = [],
             items = [(''LENGTH'', LenFact), (''GIT-BLOB'', GitFact ''blob'')]\<rparr>"
  have h1: "emits (of_chunks ?chunks) ?chunks"
    by (simp add: of_chunks_def)
  have h2: "distinct (map fst (items ?d))"
    by simp
  show ?thesis
    using h1 h2
      match_filtering [OF h1 h2, of demo_extern "Some 5" "MatchStr ''b6fc''" False]
    by blast
qed

text \<open>
  Claim C8 (empty registry). With no registered algorithm \<open>produce_hashes\<close> returns the
  empty mapping for any byte source, one that never ends or one whose reads fail included,
  raises nothing and leaves the source as it was: no chunk is taken. (When a match string
  is given and \<open>use_json\<close> is off it prints "No matches found!".)
\<close>

theorem empty_registry_untouched_source:
  assumes "items d = []"
  shows "produce_hashes ext fsize src d match use_json =
     Some (Inr ([], (if match_truthy match \<and> \<not> use_json then [NoMatches] else []), src))"
  using assms by (simp add: produce_hashes_def tee_new_def)

theorem empty_registry_untouched_source_witness:
  "items \<lparr>includes' = [''SHA''], excludes = [''SHA''], items = []\<rparr> = [] \<and>
   produce_hashes demo_extern None \<lparr>events = (\<lambda>k. Chunk [0]), consumed = 0\<rparr>
     \<lparr>includes' = [''SHA''], excludes = [''SHA''], items = []\<rparr> MatchFalse False =
     Some (Inr ([], [], \<lparr>events = (\<lambda>k. Chunk [0]), consumed = 0\<rparr>)) \<and>
   produce_hashes demo_extern None \<lparr>events = (\<lambda>k. Failure), consumed = 0\<rparr>
     \<lparr>includes' = [''SHA''], excludes = [''SHA''], items = []\<rparr> (MatchStr ''ab'') False =
     Some (Inr ([], [NoMatches], \<lparr>events = (\<lambda>k. Failure), consumed = 0\<rparr>))"
proof -
  let ?d = "\<lparr>includes' = [''SHA''], excludes = [''SHA''], items = []\<rparr>"
  have h: "items ?d = []"
    by simp
  show ?thesis
    using h
      empty_registry_untouched_source [OF h, of demo_extern None
        "\<lparr>events = (\<lambda>k. Chunk [0]), consumed = 0\<rparr>" MatchFalse False]
      empty_registry_untouched_source [OF h, of demo_extern None
        "\<lparr>events = (\<lambda>k. Failure), consumed = 0\<rparr>" "MatchStr ''ab''" False]
    by simp
qed

text \<open>
  Claim C9 (chunk-boundary invariance). Feeding chunks one \<open>update\<close> at a time gives the
  same \<open>hexdigest()\<close> as one \<open>update\<close> with their concatenation, for a \<open>GitSlurpDigester\<close>
  of any object type and for a \<open>LenDigester\<close> built with no declared length.
\<close>

theorem chunk_boundary_invariance:
  "fst (hexdigest ext (feed (GitSlurpDigester_init otype) chunks)) =
   fst (hexdigest ext (update (GitSlurpDigester_init otype) (concat chunks))) \<and>
   fst (hexdigest ext (feed (LenDigester_init None) chunks)) =
   fst (hexdigest ext (update (LenDigester_init None) (concat chunks)))"
  by (simp add: GitSlurpDigester_init_def feed_GitSlurp LenDigester_init_def feed_Len_nonneg)

text \<open>
  Claim C10 (empty match substring). \<open>produce_hashes\<close> called with the empty string as
  match does exactly what it does with the default \<open>False\<close>, on every input. Whenever it
  returns, the printed lines hold no "No matches found!" and the mapping has every name of
  the registry; on a source that yields \<open>chunks\<close> and ends it returns every algorithm's
  digest.
\<close>

theorem empty_match_like_no_match:
  "produce_hashes ext fsize src d (MatchStr []) use_json =
     produce_hashes ext fsize src d MatchFalse use_json \<and>
   (\<forall>results out src'.
      produce_hashes ext fsize src d (MatchStr []) use_json = Some (Inr (results, out, src')) \<longrightarrow>
      NoMatches \<notin> set out \<and> fst ` set results = fst ` set (items d)) \<and>
   (emits src chunks \<and> distinct (map fst (items d)) \<longrightarrow>
      (\<exists>out src'.
         produce_hashes ext fsize src d (MatchStr []) use_json =
           Some (Inr (all_digests ext fsize chunks (items d), out, src')) \<and>
         NoMatches \<notin> set out))"
proof (intro conjI allI impI)
  show same: "produce_hashes ext fsize src d (MatchStr []) use_json =
        produce_hashes ext fsize src d MatchFalse use_json"
    by (simp add: produce_hashes_def hash_batch_match_empty Let_def
        split: option.split sum.split prod.split)
  fix results out src'
  assume run: "produce_hashes ext fsize src d (MatchStr []) use_json = Some (Inr (results, out, src'))"
  then obtain t mf where
    hb: "hash_batch ext fsize (MatchStr []) use_json (zip [0..<length (items d)] (items d))
           (tee_new src (length (items d)), ([], False, [])) = Some (Inr (t, (results, mf, out)))"
    by (auto simp add: produce_hashes_def Let_def split: option.splits sum.splits)
  have "fst ` set results = fst ` set ([]::(string \<times> string) list) \<union>
          (\<lambda>x. fst (snd x)) ` set (zip [0..<length (items d)] (items d)) \<and>
        (NoMatches \<in> set out \<longrightarrow> NoMatches \<in> set ([]::line list))"
    by (rule hash_batch_no_match [OF _ hb]) simp
  then show "NoMatches \<notin> set out" and "fst ` set results = fst ` set (items d)"
    by (simp_all add: zip_upt_keys)
next
  assume fin: "emits src chunks \<and> distinct (map fst (items d))"
  have "filter (kept (MatchStr [])) (all_digests ext fsize chunks (items d)) =
        all_digests ext fsize chunks (items d)"
    by (simp add: kept_def)
  then show "\<exists>out src'.
         produce_hashes ext fsize src d (MatchStr []) use_json =
           Some (Inr (all_digests ext fsize chunks (items d), out, src')) \<and>
         NoMatches \<notin> set out"
    using fin by (auto simp add: produce_hashes_finite)
qed

theorem empty_match_like_no_match_witness:
  "produce_hashes demo_extern (Some 5) (of_chunks [encode ''hello''])
     \<lparr>includes' = [], excludes = [], items = [(''LENGTH'', LenFact)]\<rparr> (MatchStr []) False =
   produce_hashes demo_extern (Some 5) (of_chunks [encode ''hello''])
     \<lparr>includes' = [], excludes = [], items = [(''LENGTH'', LenFact)]\<rparr> MatchFalse False \<and>
   emits (of_chunks [encode ''hello'']) [encode ''hello''] \<and>
   distinct (map fst (items \<lparr>includes' = [], excludes = [], items = [(''LENGTH'', LenFact)]\<rparr>)) \<and>
   (\<exists>out src'.
      produce_hashes demo_extern (Some 5) (of_chunks [encode ''hello''])
        \<lparr>includes' = [], excludes = [], items = [(''LENGTH'', LenFact)]\<rparr> (MatchStr []) False =
        Some (Inr ([(''LENGTH'', ''5'')], out, src')) \<and>
      NoMatches \<notin> set out)"
proof -
  let ?chunks = "[encode ''hello'']"
  let ?d = "\<lparr>includes' = [], excludes = [], items = [(''LENGTH'', LenFact)]\<rparr>"
  have h1: "emits (of_chunks ?chunks) ?chunks"
    by (simp add: of_chunks_def)
  have h2: "distinct (map fst (items ?d))"
    by simp
  have len: "digest_alone demo_extern (Some 5) ?chunks LenFact = ''5''"
    by (simp add: digest_alone_def LenDigester_declared_positive str_int_def str_nat_digit
        digit_char_def)
  have digs: "all_digests demo_extern (Some 5) ?chunks (items ?d) = [(''LENGTH'', ''5'')]"
    by (simp add: all_digests_def len)
  note inst =
    empty_match_like_no_match [of demo_extern "Some 5" "of_chunks ?chunks" ?d False ?chunks]
  have same: "produce_hashes demo_extern (Some 5) (of_chunks ?chunks) ?d (MatchStr []) False =
        produce_hashes demo_extern (Some 5) (of_chunks ?chunks) ?d MatchFalse False"
    using inst by (rule conjunct1)
  have "\<exists>out src'.
      produce_hashes demo_extern (Some 5) (of_chunks ?chunks) ?d (MatchStr []) False =
        Some (Inr (all_digests demo_extern (Some 5) ?chunks (items ?d), out, src')) \<and>
      NoMatches \<notin> set out"
    using inst [THEN conjunct2, THEN conjunct2] h1 h2 by blast
  then have all: "\<exists>out src'.
      produce_hashes demo_extern (Some 5) (of_chunks ?chunks) ?d (MatchStr []) False =
        Some (Inr ([(''LENGTH'', ''5'')], out, src')) \<and>
      NoMatches \<notin> set out"
    by (simp only: digs)
  show ?thesis
    using same h1 h2 all by (intro conjI)
qed

end
